theory Spec2Isabelle
  imports Main "HOL-Library.Sublist" "HOL-Library.AList"
begin

section \<open>Data model of \<^verbatim>\<open>scripts/extract_reviews.py\<close>\<close>

text \<open>
  A Python \<^verbatim>\<open>str\<close> is a sequence of Unicode code points and \<^verbatim>\<open>len\<close> counts code
  points, so a string is a list of code points (natural numbers), not of bytes.
  \<open>str_of\<close> writes an ASCII literal as such a list.
\<close>

type_synonym pystr = "nat list"

definition str_of :: "string \<Rightarrow> pystr" where
  "str_of s = map of_char s"

text \<open>
  A row is the dict \<^verbatim>\<open>{"content": content, "score": score}\<close> that \<^verbatim>\<open>read_arrow\<close>
  builds: the content column is nullable (\<open>None\<close>), the score is an integer.
\<close>

record row =
  content :: "pystr option"
  score :: int

text \<open>The exceptions the script can meet.\<close>

datatype py_error = AttributeError | FileNotFoundError | ArrowError | OSError

definition MIN_CONTENT_LEN :: nat where
  "MIN_CONTENT_LEN = 10"

subsection \<open>\<^verbatim>\<open>str.strip()\<close>\<close>

text \<open>
  \<^verbatim>\<open>str.strip()\<close> without argument removes the leading and trailing characters that
  Python counts as whitespace: the code points of \<^verbatim>\<open>str.isspace\<close>.
\<close>

definition isspace :: "nat \<Rightarrow> bool" where
  "isspace c \<longleftrightarrow>
     (9 \<le> c \<and> c \<le> 13) \<or> (28 \<le> c \<and> c \<le> 32) \<or> c = 133 \<or> c = 160 \<or> c = 5760 \<or>
     (8192 \<le> c \<and> c \<le> 8202) \<or> c = 8232 \<or> c = 8233 \<or> c = 8239 \<or> c = 8287 \<or> c = 12288"

definition strip :: "pystr \<Rightarrow> pystr" where
  "strip s = rev (dropWhile isspace (rev (dropWhile isspace s)))"

section \<open>The cleaner\<close>

text \<open>
  The first loop of \<^verbatim>\<open>clean\<close>: rows without content are skipped, a row is appended to
  \<^verbatim>\<open>deduped\<close> when its content is not in \<^verbatim>\<open>seen_content\<close> yet. The two mutable
  variables are passed along.
\<close>

fun dedup_loop :: "row list \<Rightarrow> pystr set \<Rightarrow> row list \<Rightarrow> row list" where
  "dedup_loop [] seen_content deduped = deduped"
| "dedup_loop (r # records) seen_content deduped =
     (case content r of
        None \<Rightarrow> dedup_loop records seen_content deduped
      | Some c \<Rightarrow>
          if c \<notin> seen_content
          then dedup_loop records (insert c seen_content) (deduped @ [r])
          else dedup_loop records seen_content deduped)"

text \<open>
  The comprehension \<^verbatim>\<open>[r for r in deduped if len(r["content"].strip()) >= MIN_CONTENT_LEN]\<close>.
  \<^verbatim>\<open>None.strip()\<close> raises \<^verbatim>\<open>AttributeError\<close>, which aborts the comprehension.
\<close>

fun length_filter :: "row list \<Rightarrow> py_error + row list" where
  "length_filter [] = Inr []"
| "length_filter (r # deduped) =
     (case content r of
        None \<Rightarrow> Inl AttributeError
      | Some c \<Rightarrow>
          (case length_filter deduped of
             Inl e \<Rightarrow> Inl e
           | Inr rs \<Rightarrow> Inr (if MIN_CONTENT_LEN \<le> length (strip c) then r # rs else rs)))"

text \<open>
  \<^verbatim>\<open>content_scores\<close> is a \<^verbatim>\<open>defaultdict(set)\<close>: a dict in insertion order, here an
  association list with distinct keys. \<^verbatim>\<open>content_scores[k].add(s)\<close> starts from the
  empty set when the key is new.
\<close>

type_synonym score_dict = "(pystr option \<times> int set) list"

definition add_score :: "score_dict \<Rightarrow> pystr option \<Rightarrow> int \<Rightarrow> score_dict" where
  "add_score d k s =
     AList.update k (insert s (case map_of d k of None \<Rightarrow> {} | Some scores \<Rightarrow> scores)) d"

fun content_scores_loop :: "row list \<Rightarrow> score_dict \<Rightarrow> score_dict" where
  "content_scores_loop [] d = d"
| "content_scores_loop (r # rs) d = content_scores_loop rs (add_score d (content r) (score r))"

text \<open>\<^verbatim>\<open>{c for c, scores in content_scores.items() if len(scores) > 1}\<close>\<close>

definition ambiguous_of :: "score_dict \<Rightarrow> pystr option set" where
  "ambiguous_of d = set (map fst (filter (\<lambda>(c, scores). 1 < card scores) d))"

definition clean :: "row list \<Rightarrow> py_error + row list" where
  "clean records =
     (let deduped = dedup_loop records {} [] in
      case length_filter deduped of
        Inl e \<Rightarrow> Inl e
      | Inr length_filtered \<Rightarrow>
          let content_scores = content_scores_loop length_filtered [];
              ambiguous = ambiguous_of content_scores
          in Inr (filter (\<lambda>r. content r \<notin> ambiguous) length_filtered))"

section \<open>The writer\<close>

text \<open>
  \<^verbatim>\<open>s.replace(old, new)\<close> where \<^verbatim>\<open>old\<close> and \<^verbatim>\<open>new\<close> are single characters, the
  only way \<^verbatim>\<open>main\<close> calls it: every occurrence of the character is exchanged.
\<close>

definition replace_char :: "nat \<Rightarrow> nat \<Rightarrow> pystr \<Rightarrow> pystr" where
  "replace_char old new s = map (\<lambda>c. if c = old then new else c) s"

text \<open>An integer inside an f-string is written in decimal, with a minus sign when negative.\<close>

fun str_nat :: "nat \<Rightarrow> pystr" where
  "str_nat n = (if n < 10 then [48 + n] else str_nat (n div 10) @ [48 + n mod 10])"

definition str_int :: "int \<Rightarrow> pystr" where
  "str_int i = (if i < 0 then 45 # str_nat (nat (- i)) else str_nat (nat i))"

text \<open>
  The body of the writing loop: the string handed to \<^verbatim>\<open>out.write\<close> for one row.
  Tab is code point 9, newline 10, carriage return 13, space 32.
\<close>

definition write_row :: "row \<Rightarrow> py_error + pystr" where
  "write_row r =
     (case content r of
        None \<Rightarrow> Inl AttributeError
      | Some c0 \<Rightarrow>
          let c = replace_char 13 32 (replace_char 10 32 (replace_char 9 32 c0))
          in Inr (c @ [9] @ str_int (score r) @ [10]))"

section \<open>The process\<close>

datatype path = TRAIN_ARROW | TEST_ARROW | OUTPUT_TSV

text \<open>What the process does to the outside, in order.\<close>

datatype event =
    Path_exists path
  | Print_stderr pystr
  | Print_stdout pystr
  | Open_read path
  | Mkdir_parent path
  | Open_write path
  | Write pystr

text \<open>How the process ends: \<^verbatim>\<open>sys.exit(code)\<close> or the end of \<^verbatim>\<open>main\<close> (status 0), or an
  exception nobody catches.\<close>

datatype outcome = Exit int | Uncaught py_error

text \<open>
  The outside as the script meets it: which paths exist, how a path prints, what the
  Arrow reader yields for a path (the batches, each with its content and score columns,
  or the reader's failure), and whether creating the output directory or opening the
  output file fails.
\<close>

type_synonym batch = "pystr option list \<times> int list"

record world =
  path_exists :: "path \<Rightarrow> bool"
  path_text :: "path \<Rightarrow> pystr"
  arrow_stream :: "path \<Rightarrow> py_error + batch list"
  mkdir_error :: "py_error option"
  open_write_error :: "py_error option"

definition read_arrow :: "world \<Rightarrow> path \<Rightarrow> py_error + row list" where
  "read_arrow w p =
     (if \<not> path_exists w p then Inl FileNotFoundError
      else case arrow_stream w p of
             Inl e \<Rightarrow> Inl e
           | Inr batches \<Rightarrow>
               Inr (concat (map (\<lambda>(contents, scores).
                      map (\<lambda>(c, s). \<lparr>content = c, score = s\<rparr>) (zip contents scores)) batches)))"

text \<open>The loop over \<^verbatim>\<open>(TRAIN_ARROW, TEST_ARROW)\<close> that opens \<^verbatim>\<open>main\<close>; \<open>Some code\<close> is
  \<^verbatim>\<open>sys.exit(code)\<close>.\<close>

fun check_inputs :: "world \<Rightarrow> path list \<Rightarrow> event list \<times> int option" where
  "check_inputs w [] = ([], None)"
| "check_inputs w (p # ps) =
     (if \<not> path_exists w p
      then ([Path_exists p,
             Print_stderr (str_of ''ERROR: Arrow file not found: '' @ path_text w p)], Some 1)
      else (case check_inputs w ps of (ev, r) \<Rightarrow> (Path_exists p # ev, r)))"

text \<open>\<^verbatim>\<open>score_counts\<close> is a \<^verbatim>\<open>defaultdict(int)\<close>.\<close>

definition bump_count :: "(int \<times> int) list \<Rightarrow> int \<Rightarrow> (int \<times> int) list" where
  "bump_count d k = AList.update k ((case map_of d k of None \<Rightarrow> 0 | Some n \<Rightarrow> n) + 1) d"

fun score_counts_loop :: "row list \<Rightarrow> (int \<times> int) list \<Rightarrow> (int \<times> int) list" where
  "score_counts_loop [] d = d"
| "score_counts_loop (r # rs) d = score_counts_loop rs (bump_count d (score r))"

fun write_rows :: "row list \<Rightarrow> event list \<times> py_error option" where
  "write_rows [] = ([], None)"
| "write_rows (r # rs) =
     (case write_row r of
        Inl e \<Rightarrow> ([], Some e)
      | Inr line \<Rightarrow> (case write_rows rs of (ev, res) \<Rightarrow> (Write line # ev, res)))"

definition main :: "world \<Rightarrow> event list \<times> outcome" where
  "main w =
     (case check_inputs w [TRAIN_ARROW, TEST_ARROW] of
        (ev0, Some code) \<Rightarrow> (ev0, Exit code)
      | (ev0, None) \<Rightarrow>
     (let ev1 = ev0 @ [Print_stdout (str_of ''Reading Arrow files...''), Open_read TRAIN_ARROW] in
      case read_arrow w TRAIN_ARROW of
        Inl e \<Rightarrow> (ev1, Uncaught e)
      | Inr train_records \<Rightarrow>
     (let ev2 = ev1 @ [Open_read TEST_ARROW] in
      case read_arrow w TEST_ARROW of
        Inl e \<Rightarrow> (ev2, Uncaught e)
      | Inr test_records \<Rightarrow>
     (let train_count = int (length train_records);
          test_count = int (length test_records);
          combined = train_records @ test_records;
          total_before = int (length combined);
          ev3 = ev2 @
            [Print_stdout (10 # str_of ''Rows before cleaning:''),
             Print_stdout (str_of ''  train : '' @ str_int train_count),
             Print_stdout (str_of ''  test  : '' @ str_int test_count),
             Print_stdout (str_of ''  total : '' @ str_int total_before)]
      in
      case clean combined of
        Inl e \<Rightarrow> (ev3, Uncaught e)
      | Inr cleaned \<Rightarrow>
     (let total_after = int (length cleaned);
          score_counts = score_counts_loop cleaned [];
          ev4 = ev3 @
            [Print_stdout (10 # str_of ''Rows per score after cleaning:'')] @
            map (\<lambda>star. Print_stdout (str_of ''  score '' @ str_int star @ str_of '': '' @
                   str_int (case map_of score_counts star of None \<Rightarrow> 0 | Some n \<Rightarrow> n)))
                (sort (map fst score_counts)) @
            [Print_stdout (10 # str_of ''Total rows after cleaning : '' @ str_int total_after),
             Print_stdout (str_of ''Rows removed              : '' @
                             str_int (total_before - total_after)),
             Mkdir_parent OUTPUT_TSV]
      in
      case mkdir_error w of
        Some e \<Rightarrow> (ev4, Uncaught e)
      | None \<Rightarrow>
     (let ev5 = ev4 @ [Open_write OUTPUT_TSV] in
      case open_write_error w of
        Some e \<Rightarrow> (ev5, Uncaught e)
      | None \<Rightarrow>
     (case write_rows cleaned of
        (evw, Some e) \<Rightarrow> (ev5 @ evw, Uncaught e)
      | (evw, None) \<Rightarrow>
          (ev5 @ evw @
             [Print_stdout (10 # str_of ''Output written to: '' @ path_text w OUTPUT_TSV)],
           Exit 0))))))))"

section \<open>Auxiliary notions for the proofs\<close>

text \<open>The first loop without its accumulator: what it appends, given the contents seen.\<close>

fun dedup_from :: "pystr set \<Rightarrow> row list \<Rightarrow> row list" where
  "dedup_from seen [] = []"
| "dedup_from seen (r # rs) =
     (case content r of
        None \<Rightarrow> dedup_from seen rs
      | Some c \<Rightarrow> if c \<in> seen then dedup_from seen rs else r # dedup_from (insert c seen) rs)"

text \<open>The test of the length filter on a row.\<close>

definition long_enough :: "row \<Rightarrow> bool" where
  "long_enough r =
     (case content r of None \<Rightarrow> False | Some c \<Rightarrow> MIN_CONTENT_LEN \<le> length (strip c))"

text \<open>
  The pipeline that C2 compares \<open>clean\<close> with: the first loop followed by the length
  filter, with no ambiguity filter.
\<close>

definition clean_without_ambiguity :: "row list \<Rightarrow> py_error + row list" where
  "clean_without_ambiguity records = length_filter (dedup_loop records {} [])"

section \<open>Sample inputs\<close>

text \<open>A small record list: a duplicate with another score, a null content, a short one.\<close>

definition sample_rows :: "row list" where
  "sample_rows =
     [\<lparr>content = Some (str_of ''great product!!''), score = 5\<rparr>,
      \<lparr>content = None, score = 3\<rparr>,
      \<lparr>content = Some (str_of ''hi''), score = 3\<rparr>,
      \<lparr>content = Some (str_of ''great product!!''), score = 4\<rparr>,
      \<lparr>content = Some (str_of ''hello world''), score = 5\<rparr>]"

definition sample_cleaned :: "row list" where
  "sample_cleaned =
     [\<lparr>content = Some (str_of ''great product!!''), score = 5\<rparr>,
      \<lparr>content = Some (str_of ''hello world''), score = 5\<rparr>]"

text \<open>Three worlds: the test file is missing, the train file is missing, both files are there.\<close>

definition world_no_test :: world where
  "world_no_test =
     \<lparr>path_exists = (\<lambda>p. p \<noteq> TEST_ARROW),
      path_text = (\<lambda>p. case p of TRAIN_ARROW \<Rightarrow> str_of ''train.arrow''
                     | TEST_ARROW \<Rightarrow> str_of ''test.arrow'' | OUTPUT_TSV \<Rightarrow> str_of ''out.tsv''),
      arrow_stream = (\<lambda>p. Inl ArrowError),
      mkdir_error = None,
      open_write_error = None\<rparr>"

definition world_no_train :: world where
  "world_no_train = world_no_test\<lparr>path_exists := (\<lambda>p. p \<noteq> TRAIN_ARROW)\<rparr>"

definition world_both :: world where
  "world_both =
     \<lparr>path_exists = (\<lambda>p. True),
      path_text = (\<lambda>p. case p of TRAIN_ARROW \<Rightarrow> str_of ''train.arrow''
                     | TEST_ARROW \<Rightarrow> str_of ''test.arrow'' | OUTPUT_TSV \<Rightarrow> str_of ''out.tsv''),
      arrow_stream = (\<lambda>p. case p of
                        TRAIN_ARROW \<Rightarrow> Inr [([Some (str_of ''hello world'')], [5])]
                      | TEST_ARROW \<Rightarrow> Inr [([Some (str_of ''hi'')], [3])]
                      | OUTPUT_TSV \<Rightarrow> Inl ArrowError),
      mkdir_error = None,
      open_write_error = None\<rparr>"

section \<open>Evaluation rules\<close>

lemma ambiguous_of_Nil: "ambiguous_of [] = {}"
  by (simp add: ambiguous_of_def)

lemma ambiguous_of_Cons:
  "ambiguous_of ((c, scores) # d) =
     (if 1 < card scores then insert c (ambiguous_of d) else ambiguous_of d)"
  by (simp add: ambiguous_of_def)

lemmas clean_eval =
  clean_def MIN_CONTENT_LEN_def add_score_def ambiguous_of_Nil ambiguous_of_Cons

section \<open>The three stages of the cleaner\<close>

lemma dedup_loop_eq: "dedup_loop xs seen acc = acc @ dedup_from seen xs"
  by (induction xs arbitrary: seen acc) (auto split: option.splits)

lemma dedup_from_mem:
  "r \<in> set (dedup_from seen xs) \<Longrightarrow> \<exists>c. content r = Some c \<and> c \<notin> seen \<and> r \<in> set xs"
  by (induction xs arbitrary: seen) (auto split: option.splits if_splits)

lemma dedup_from_distinct: "distinct (map content (dedup_from seen xs))"
proof (induction xs arbitrary: seen)
  case Nil
  show ?case by simp
next
  case (Cons x xs)
  show ?case
  proof (cases "content x")
    case None
    then show ?thesis using Cons.IH by simp
  next
    case (Some c)
    have "Some c \<notin> content ` set (dedup_from (insert c seen) xs)"
      using dedup_from_mem [of _ "insert c seen" xs] by force
    then show ?thesis using Some Cons.IH by simp
  qed
qed

lemma dedup_from_subseq: "subseq (dedup_from seen xs) xs"
  by (induction xs arbitrary: seen) (auto split: option.splits)

lemma dedup_from_first:
  "r \<in> set (dedup_from seen xs) \<Longrightarrow> find (\<lambda>x. content x = content r) xs = Some r"
proof (induction xs arbitrary: seen)
  case Nil
  then show ?case by simp
next
  case (Cons x xs)
  show ?case
  proof (cases "content x")
    case None
    then have m: "r \<in> set (dedup_from seen xs)" using Cons.prems by simp
    then have "content x \<noteq> content r" using dedup_from_mem [OF m] None by auto
    then show ?thesis using m Cons.IH by simp
  next
    case (Some c)
    show ?thesis
    proof (cases "c \<in> seen")
      case True
      then have m: "r \<in> set (dedup_from seen xs)" using Cons.prems Some by simp
      then have "content x \<noteq> content r" using dedup_from_mem [OF m] True Some by auto
      then show ?thesis using m Cons.IH by simp
    next
      case False
      then have "r = x \<or> r \<in> set (dedup_from (insert c seen) xs)"
        using Cons.prems Some by simp
      then show ?thesis
      proof
        assume "r = x"
        then show ?thesis by simp
      next
        assume m: "r \<in> set (dedup_from (insert c seen) xs)"
        then have "content x \<noteq> content r" using dedup_from_mem [OF m] Some by auto
        then show ?thesis using m Cons.IH by simp
      qed
    qed
  qed
qed

lemma dedup_from_id:
  "distinct (map content xs) \<Longrightarrow> \<forall>r \<in> set xs. \<exists>c. content r = Some c \<and> c \<notin> seen
     \<Longrightarrow> dedup_from seen xs = xs"
proof (induction xs arbitrary: seen)
  case Nil
  show ?case by simp
next
  case (Cons x xs)
  from Cons.prems obtain c where c: "content x = Some c" "c \<notin> seen" by auto
  have "\<forall>r \<in> set xs. \<exists>c'. content r = Some c' \<and> c' \<notin> insert c seen"
    using Cons.prems c by force
  then have "dedup_from (insert c seen) xs = xs"
    using Cons.IH Cons.prems by simp
  then show ?case using c by simp
qed

lemma length_filter_eq:
  "\<forall>r \<in> set xs. content r \<noteq> None \<Longrightarrow> length_filter xs = Inr (filter long_enough xs)"
  by (induction xs) (auto simp: long_enough_def split: option.splits)

lemma length_filter_dedup:
  "length_filter (dedup_from seen xs) = Inr (filter long_enough (dedup_from seen xs))"
  using dedup_from_mem by (intro length_filter_eq) fastforce


lemma map_of_add_score:
  "map_of (add_score d k s) k' =
     (if k' = k then Some (insert s (case map_of d k of None \<Rightarrow> {} | Some S \<Rightarrow> S))
      else map_of d k')"
  by (simp add: add_score_def update_conv)

lemma content_scores_loop_map_of:
  "map_of (content_scores_loop rs d) k =
     (if k \<in> content ` set rs \<or> map_of d k \<noteq> None
      then Some ((case map_of d k of None \<Rightarrow> {} | Some S \<Rightarrow> S) \<union>
                 set (map score (filter (\<lambda>r. content r = k) rs)))
      else None)"
proof (induction rs arbitrary: d)
  case Nil
  show ?case by (cases "map_of d k") simp_all
next
  case (Cons r rs)
  show ?case
    unfolding content_scores_loop.simps Cons.IH map_of_add_score
    by (cases "map_of d k") auto
qed

lemma content_scores_loop_distinct:
  "distinct (map fst d) \<Longrightarrow> distinct (map fst (content_scores_loop rs d))"
  by (induction rs arbitrary: d) (simp_all add: add_score_def distinct_update)

lemma filter_key_le_one:
  "distinct (map f xs) \<Longrightarrow> length (filter (\<lambda>x. f x = k) xs) \<le> 1"
proof (induction xs)
  case Nil
  show ?case by simp
next
  case (Cons x xs)
  have "filter (\<lambda>y. f y = k) xs = []" if "f x = k"
  proof -
    have "f y \<noteq> k" if "y \<in> set xs" for y
      using Cons.prems \<open>f x = k\<close> that by (metis distinct.simps(2) image_eqI list.simps(9) set_map)
    then show ?thesis by (simp add: filter_empty_conv)
  qed
  then show ?case using Cons by auto
qed

lemma scores_of_key_card:
  assumes "distinct (map content rs)"
  shows "card (set (map score (filter (\<lambda>r. content r = k) rs))) \<le> 1"
proof -
  have "card (set (map score (filter (\<lambda>r. content r = k) rs)))
          \<le> length (map score (filter (\<lambda>r. content r = k) rs))"
    by (rule card_length)
  also have "\<dots> \<le> 1" using filter_key_le_one [OF assms] by simp
  finally show ?thesis .
qed

lemma ambiguous_of_empty_iff:
  "ambiguous_of d = {} \<longleftrightarrow> (\<forall>(k, S) \<in> set d. card S \<le> 1)"
  by (auto simp: ambiguous_of_def filter_empty_conv not_less)

lemma no_ambiguous:
  assumes "distinct (map content rs)"
  shows "ambiguous_of (content_scores_loop rs []) = {}"
proof -
  have "card S \<le> 1" if "(k, S) \<in> set (content_scores_loop rs [])" for k S
  proof -
    have "distinct (map fst (content_scores_loop rs []))"
      by (rule content_scores_loop_distinct) simp
    then have "map_of (content_scores_loop rs []) k = Some S"
      using that by simp
    then have "S = set (map score (filter (\<lambda>r. content r = k) rs))"
      unfolding content_scores_loop_map_of by (simp split: if_splits)
    then show ?thesis using scores_of_key_card [OF assms] by simp
  qed
  then show ?thesis unfolding ambiguous_of_empty_iff by auto
qed

lemma deduped_eq: "dedup_loop xs {} [] = dedup_from {} xs"
  by (simp add: dedup_loop_eq)

lemma length_filtered_distinct:
  "distinct (map content (filter long_enough (dedup_from seen xs)))"
  by (rule distinct_map_filter) (rule dedup_from_distinct)

lemma clean_eq: "clean xs = Inr (filter long_enough (dedup_from {} xs))"
  by (simp add: clean_def deduped_eq length_filter_dedup
      no_ambiguous [OF length_filtered_distinct])

lemma scores_of_key_singleton:
  assumes d: "distinct (map content rs)" and m: "r \<in> set rs"
  shows "filter (\<lambda>x. content x = content r) rs = [r]"
proof -
  have "length (filter (\<lambda>x. content x = content r) rs) \<le> 1"
    by (rule filter_key_le_one [OF d])
  moreover have "r \<in> set (filter (\<lambda>x. content x = content r) rs)"
    using m by simp
  ultimately show ?thesis
    by (cases "filter (\<lambda>x. content x = content r) rs") auto
qed

lemma cleaned_subseq: "subseq (filter long_enough (dedup_from {} xs)) xs"
  by (rule subseq_order.order_trans [OF subseq_filter_left dedup_from_subseq])

section \<open>The checks that open \<open>main\<close>\<close>

lemma check_inputs_both:
  "check_inputs w [TRAIN_ARROW, TEST_ARROW] =
     (if \<not> path_exists w TRAIN_ARROW
      then ([Path_exists TRAIN_ARROW,
             Print_stderr (str_of ''ERROR: Arrow file not found: '' @ path_text w TRAIN_ARROW)],
            Some 1)
      else if \<not> path_exists w TEST_ARROW
      then ([Path_exists TRAIN_ARROW, Path_exists TEST_ARROW,
             Print_stderr (str_of ''ERROR: Arrow file not found: '' @ path_text w TEST_ARROW)],
            Some 1)
      else ([Path_exists TRAIN_ARROW, Path_exists TEST_ARROW], None))"
  by simp

lemma main_reads_after_checks:
  assumes "path_exists w TRAIN_ARROW" "path_exists w TEST_ARROW"
  shows "\<exists>rest. fst (main w) =
           [Path_exists TRAIN_ARROW, Path_exists TEST_ARROW,
            Print_stdout (str_of ''Reading Arrow files...'')] @ rest"
  unfolding main_def check_inputs_both using assms
  by (simp add: Let_def split: sum.split option.split prod.split)

lemma main_no_read:
  assumes "\<not> path_exists w TRAIN_ARROW \<or> \<not> path_exists w TEST_ARROW"
  shows "Open_read p \<notin> set (fst (main w))"
  unfolding main_def check_inputs_both using assms by auto

section \<open>Scenarios\<close>

lemma str_bad_experience:
  "str_of ''bad experience'' = [98, 97, 100, 32, 101, 120, 112, 101, 114, 105, 101, 110, 99, 101]"
  by (simp add: str_of_def)

lemma strip_bad_experience:
  "strip [98, 97, 100, 32, 101, 120, 112, 101, 114, 105, 101, 110, 99, 101]
     = [98, 97, 100, 32, 101, 120, 112, 101, 114, 105, 101, 110, 99, 101]"
  by (simp add: strip_def isspace_def)

lemma str_great_product:
  "str_of ''great product!!'' = [103, 114, 101, 97, 116, 32, 112, 114, 111, 100, 117, 99, 116, 33, 33]"
  by (simp add: str_of_def)

lemma str_hello_world:
  "str_of ''hello world'' = [104, 101, 108, 108, 111, 32, 119, 111, 114, 108, 100]"
  by (simp add: str_of_def)

lemma str_hi: "str_of ''hi'' = [104, 105]"
  by (simp add: str_of_def)

lemma strip_great_product:
  "strip [103, 114, 101, 97, 116, 32, 112, 114, 111, 100, 117, 99, 116, 33, 33]
     = [103, 114, 101, 97, 116, 32, 112, 114, 111, 100, 117, 99, 116, 33, 33]"
  by (simp add: strip_def isspace_def)

lemma strip_hello_world:
  "strip [104, 101, 108, 108, 111, 32, 119, 111, 114, 108, 100]
     = [104, 101, 108, 108, 111, 32, 119, 111, 114, 108, 100]"
  by (simp add: strip_def isspace_def)

lemma strip_hi: "strip [104, 105] = [104, 105]"
  by (simp add: strip_def isspace_def)

lemmas sample_strings =
  str_great_product str_hello_world str_hi strip_great_product strip_hello_world strip_hi

text \<open>Scenario 1 of the specification: the short record goes.\<close>

lemma clean_scenario_1:
  "clean [\<lparr>content = Some (str_of ''hello world''), score = 5\<rparr>,
          \<lparr>content = Some (str_of ''hi''), score = 3\<rparr>]
     = Inr [\<lparr>content = Some (str_of ''hello world''), score = 5\<rparr>]"
  by (simp add: clean_eval sample_strings)

text \<open>Scenario 2: of two equal records the first stays.\<close>

lemma clean_scenario_2:
  "clean [\<lparr>content = Some (str_of ''great product!!''), score = 5\<rparr>,
          \<lparr>content = Some (str_of ''great product!!''), score = 5\<rparr>]
     = Inr [\<lparr>content = Some (str_of ''great product!!''), score = 5\<rparr>]"
  by (simp add: clean_eval sample_strings)

text \<open>Scenario 4: a record without content goes, whatever its score.\<close>

lemma clean_scenario_4: "clean [\<lparr>content = None, score = s\<rparr>] = Inr []"
  by (simp add: clean_eval)

lemma dedup_sample:
  "dedup_loop sample_rows {} [] =
     [\<lparr>content = Some (str_of ''great product!!''), score = 5\<rparr>,
      \<lparr>content = Some (str_of ''hi''), score = 3\<rparr>,
      \<lparr>content = Some (str_of ''hello world''), score = 5\<rparr>]"
  by (simp add: sample_rows_def sample_strings)

lemma length_filter_sample:
  "length_filter (dedup_loop sample_rows {} []) = Inr sample_cleaned"
  unfolding dedup_sample by (simp add: sample_cleaned_def sample_strings MIN_CONTENT_LEN_def)

lemma clean_sample: "clean sample_rows = Inr sample_cleaned"
  by (simp add: clean_def length_filter_sample)
    (simp add: sample_cleaned_def sample_strings add_score_def ambiguous_of_Nil ambiguous_of_Cons)

lemma read_arrow_world_both:
  "read_arrow world_both TRAIN_ARROW = Inr [\<lparr>content = Some (str_of ''hello world''), score = 5\<rparr>]"
  "read_arrow world_both TEST_ARROW = Inr [\<lparr>content = Some (str_of ''hi''), score = 3\<rparr>]"
  by (simp_all add: read_arrow_def world_both_def)

lemma nths_sample: "nths sample_rows {0, 4} = sample_cleaned"
  by (simp add: sample_rows_def sample_cleaned_def nths_Cons)

text \<open>A whole run where both files are there.\<close>

lemma main_world_both:
  "main world_both =
     ([Path_exists TRAIN_ARROW, Path_exists TEST_ARROW,
       Print_stdout (str_of ''Reading Arrow files...''),
       Open_read TRAIN_ARROW, Open_read TEST_ARROW,
       Print_stdout (10 # str_of ''Rows before cleaning:''),
       Print_stdout (str_of ''  train : 1''),
       Print_stdout (str_of ''  test  : 1''),
       Print_stdout (str_of ''  total : 2''),
       Print_stdout (10 # str_of ''Rows per score after cleaning:''),
       Print_stdout (str_of ''  score 5: 1''),
       Print_stdout (10 # str_of ''Total rows after cleaning : 1''),
       Print_stdout (str_of ''Rows removed              : 1''),
       Mkdir_parent OUTPUT_TSV, Open_write OUTPUT_TSV,
       Write (str_of ''hello world'' @ [9] @ str_of ''5'' @ [10]),
       Print_stdout (10 # str_of ''Output written to: out.tsv'')],
      Exit 0)"
  by (simp add: main_def read_arrow_world_both clean_scenario_1 bump_count_def)
    (simp add: world_both_def write_row_def replace_char_def str_of_def str_int_def)

section \<open>The claims\<close>

text \<open>
  C1. For the two records ("bad experience", 1) and ("bad experience", 5) the cleaner is
  said to return the empty list. The code keeps the first one: the second record is
  removed as a duplicate before the scores are compared, so the content is left with the
  single score 1 and is not ambiguous.
\<close>

theorem clean_same_content_two_scores:
  "clean [\<lparr>content = Some (str_of ''bad experience''), score = 1\<rparr>,
          \<lparr>content = Some (str_of ''bad experience''), score = 5\<rparr>]
     = Inr [\<lparr>content = Some (str_of ''bad experience''), score = 1\<rparr>]"
  by (simp add: clean_eval str_bad_experience strip_bad_experience)

text \<open>
  C2. For every record list the set \<^verbatim>\<open>ambiguous\<close> computed inside \<open>clean\<close> is empty, and
  \<open>clean\<close> equals the pipeline of the first loop and the length filter alone.
\<close>

theorem clean_ambiguity_filter_idle:
  "clean records = clean_without_ambiguity records \<and>
   (\<exists>length_filtered.
      length_filter (dedup_loop records {} []) = Inr length_filtered \<and>
      ambiguous_of (content_scores_loop length_filtered []) = {})"
  by (simp add: clean_eq clean_without_ambiguity_def deduped_eq length_filter_dedup
      no_ambiguous [OF length_filtered_distinct])

theorem clean_ambiguity_filter_idle_witness:
  "clean sample_rows = clean_without_ambiguity sample_rows \<and>
   clean_without_ambiguity sample_rows = Inr sample_cleaned \<and>
   ambiguous_of (content_scores_loop sample_cleaned []) = {}"
  using clean_ambiguity_filter_idle [of sample_rows]
  by (simp add: length_filter_sample clean_without_ambiguity_def)

text \<open>
  C3. \<open>clean\<close> is idempotent: it returns a list (it never raises), and cleaning that list
  again returns the same list.
\<close>

theorem clean_idempotent: "\<exists>ys. clean xs = Inr ys \<and> clean ys = Inr ys"
proof -
  let ?ys = "filter long_enough (dedup_from {} xs)"
  have "\<forall>r \<in> set ?ys. \<exists>c. content r = Some c \<and> c \<notin> {}"
    using dedup_from_mem by fastforce
  then have "dedup_from {} ?ys = ?ys"
    using dedup_from_id [OF length_filtered_distinct] by blast
  then have "clean ?ys = Inr ?ys" by (simp add: clean_eq)
  then show ?thesis by (simp add: clean_eq)
qed

theorem clean_idempotent_witness:
  "clean sample_rows = Inr sample_cleaned \<and> clean sample_cleaned = Inr sample_cleaned"
  using clean_idempotent [of sample_rows] by (simp add: clean_sample)

text \<open>
  C4. In the output of \<open>clean\<close> no two records have the same content: for every content
  \<open>c\<close> at most one output record has it. And each output record is the first record of
  the input, in input order, with its content.
\<close>

theorem clean_unique_first:
  "\<exists>ys. clean xs = Inr ys \<and> distinct (map content ys) \<and>
        (\<forall>c. length (filter (\<lambda>r. content r = c) ys) \<le> 1) \<and>
        (\<forall>r \<in> set ys. find (\<lambda>x. content x = content r) xs = Some r)"
proof -
  let ?ys = "filter long_enough (dedup_from {} xs)"
  have d: "distinct (map content ?ys)" by (rule length_filtered_distinct)
  have "\<forall>c. length (filter (\<lambda>r. content r = c) ?ys) \<le> 1"
    using filter_key_le_one [OF d] by blast
  moreover have "\<forall>r \<in> set ?ys. find (\<lambda>x. content x = content r) xs = Some r"
    using dedup_from_first [of _ "{}" xs] by simp
  moreover have "clean xs = Inr ?ys" by (rule clean_eq)
  ultimately show ?thesis using d by blast
qed

theorem clean_unique_first_witness:
  "clean sample_rows = Inr sample_cleaned \<and>
   distinct (map content sample_cleaned) \<and>
   \<lparr>content = Some (str_of ''great product!!''), score = 5\<rparr> \<in> set sample_cleaned \<and>
   find (\<lambda>x. content x = Some (str_of ''great product!!'')) sample_rows
     = Some \<lparr>content = Some (str_of ''great product!!''), score = 5\<rparr>"
  using clean_unique_first [of sample_rows]
  by (simp add: clean_sample) (simp add: sample_cleaned_def)

text \<open>
  C5. Every record in the output of \<open>clean\<close> has a content (it is not null), and the
  content without its leading and trailing whitespace has at least 10 code points; the
  threshold \<open>MIN_CONTENT_LEN\<close> is the constant 10.
\<close>

theorem clean_min_length:
  "MIN_CONTENT_LEN = 10 \<and>
   (\<exists>ys. clean xs = Inr ys \<and>
      (\<forall>r \<in> set ys. \<exists>c. content r = Some c \<and> 10 \<le> length (strip c)))"
  by (auto simp: clean_eq long_enough_def MIN_CONTENT_LEN_def split: option.splits)

theorem clean_min_length_witness:
  "clean sample_rows = Inr sample_cleaned \<and>
   map content sample_cleaned
     = [Some (str_of ''great product!!''), Some (str_of ''hello world'')] \<and>
   10 \<le> length (strip (str_of ''great product!!'')) \<and>
   10 \<le> length (strip (str_of ''hello world''))"
  using clean_min_length [of sample_rows]
  by (simp add: clean_sample) (simp add: sample_cleaned_def)

text \<open>
  C6. The records that survive \<open>clean\<close> stand in the output in the order they have in the
  input: the output is a subsequence of the input. \<open>clean\<close> is a function of the input
  list: there is exactly one output.
\<close>

theorem clean_order: "\<exists>!ys. clean xs = Inr ys \<and> subseq ys xs"
  using cleaned_subseq [of xs] unfolding clean_eq by blast

theorem clean_order_witness:
  "clean sample_rows = Inr sample_cleaned \<and> subseq sample_cleaned sample_rows"
  using clean_order [of sample_rows] by (auto simp: clean_sample)

text \<open>
  C7. For every content \<open>c\<close> in the output of \<open>clean\<close>, the set of scores that the
  length-filtered list (after the first loop and the length filter, before the ambiguity
  filter) has for \<open>c\<close> has exactly one element; it is the entry of \<open>c\<close> in
  \<^verbatim>\<open>content_scores\<close>.
\<close>

theorem clean_single_score:
  "\<exists>lf ys. length_filter (dedup_loop xs {} []) = Inr lf \<and> clean xs = Inr ys \<and>
     (\<forall>c \<in> set (map content ys).
        card (set (map score (filter (\<lambda>r. content r = c) lf))) = 1 \<and>
        map_of (content_scores_loop lf []) c
          = Some (set (map score (filter (\<lambda>r. content r = c) lf))))"
proof -
  let ?lf = "filter long_enough (dedup_from {} xs)"
  have d: "distinct (map content ?lf)" by (rule length_filtered_distinct)
  have "card (set (map score (filter (\<lambda>r. content r = c) ?lf))) = 1 \<and>
        map_of (content_scores_loop ?lf []) c
          = Some (set (map score (filter (\<lambda>r. content r = c) ?lf)))"
    if "c \<in> set (map content ?lf)" for c
  proof -
    from that obtain r where r: "r \<in> set ?lf" "c = content r" by auto
    have "filter (\<lambda>x. content x = c) ?lf = [r]"
      unfolding r(2) by (rule scores_of_key_singleton [OF d r(1)])
    moreover have "c \<in> content ` set ?lf" using that by simp
    ultimately show ?thesis
      unfolding content_scores_loop_map_of by simp
  qed
  moreover have "length_filter (dedup_loop xs {} []) = Inr ?lf"
    by (simp add: deduped_eq length_filter_dedup)
  moreover have "clean xs = Inr ?lf" by (rule clean_eq)
  ultimately show ?thesis by blast
qed

theorem clean_single_score_witness:
  "length_filter (dedup_loop sample_rows {} []) = Inr sample_cleaned \<and>
   clean sample_rows = Inr sample_cleaned \<and>
   Some (str_of ''great product!!'') \<in> set (map content sample_cleaned) \<and>
   card (set (map score (filter (\<lambda>r. content r = Some (str_of ''great product!!''))
           sample_cleaned))) = 1 \<and>
   map_of (content_scores_loop sample_cleaned []) (Some (str_of ''great product!!''))
     = Some {5}"
  using clean_single_score [of sample_rows]
  by (simp add: length_filter_sample clean_sample sample_cleaned_def sample_strings
      add_score_def)

text \<open>
  C8. When a row is written, every tab (9), newline (10) and carriage return (13) of its
  content is replaced by one space (32), and the line is the content, a tab, the score in
  decimal and a newline. The content "a<TAB>b" with score 2 gives the line "a b<TAB>2".
\<close>

theorem write_row_line:
  "(content r = Some c \<longrightarrow>
      (\<exists>s. write_row r = Inr (s @ [9] @ str_int (score r) @ [10]) \<and>
           s = map (\<lambda>x. if x = 9 \<or> x = 10 \<or> x = 13 then 32 else x) c \<and>
           9 \<notin> set s \<and> 10 \<notin> set s \<and> 13 \<notin> set s)) \<and>
   write_row \<lparr>content = Some (str_of ''a'' @ [9] @ str_of ''b''), score = 2\<rparr>
     = Inr (str_of ''a b'' @ [9] @ str_of ''2'' @ [10])"
  by (auto simp: write_row_def replace_char_def str_of_def str_int_def)

theorem write_row_line_witness:
  "content \<lparr>content = Some [9, 97, 10, 13, 98], score = - 12\<rparr> = Some [9, 97, 10, 13, 98] \<and>
   write_row \<lparr>content = Some [9, 97, 10, 13, 98], score = - 12\<rparr>
     = Inr ([32, 97, 32, 32, 98] @ [9] @ str_of ''-12'' @ [10])"
  using write_row_line [of "\<lparr>content = Some [9, 97, 10, 13, 98], score = - 12\<rparr>" "[9, 97, 10, 13, 98]"]
  by (simp add: str_int_def str_of_def)

text \<open>
  C9. When the train file or the test file does not exist, the process prints the error
  message to stderr and exits with status 1, and nothing else happens: no file is read,
  nothing is written. In every run both paths have been checked before the first file is
  opened for reading.
\<close>

theorem main_missing_input:
  "(\<not> path_exists w TRAIN_ARROW \<longrightarrow>
      main w = ([Path_exists TRAIN_ARROW,
                 Print_stderr (str_of ''ERROR: Arrow file not found: '' @ path_text w TRAIN_ARROW)],
                Exit 1)) \<and>
   (path_exists w TRAIN_ARROW \<and> \<not> path_exists w TEST_ARROW \<longrightarrow>
      main w = ([Path_exists TRAIN_ARROW, Path_exists TEST_ARROW,
                 Print_stderr (str_of ''ERROR: Arrow file not found: '' @ path_text w TEST_ARROW)],
                Exit 1)) \<and>
   (\<forall>pre p post. fst (main w) = pre @ Open_read p # post \<longrightarrow>
      Path_exists TRAIN_ARROW \<in> set pre \<and> Path_exists TEST_ARROW \<in> set pre)"
proof (intro conjI allI impI)
  assume "\<not> path_exists w TRAIN_ARROW"
  then show "main w = ([Path_exists TRAIN_ARROW,
                 Print_stderr (str_of ''ERROR: Arrow file not found: '' @ path_text w TRAIN_ARROW)],
                Exit 1)"
    unfolding main_def check_inputs_both by simp
next
  assume "path_exists w TRAIN_ARROW \<and> \<not> path_exists w TEST_ARROW"
  then show "main w = ([Path_exists TRAIN_ARROW, Path_exists TEST_ARROW,
                 Print_stderr (str_of ''ERROR: Arrow file not found: '' @ path_text w TEST_ARROW)],
                Exit 1)"
    unfolding main_def check_inputs_both by simp
next
  fix pre p post
  assume eq: "fst (main w) = pre @ Open_read p # post"
  then have "Open_read p \<in> set (fst (main w))" by simp
  then have ex: "path_exists w TRAIN_ARROW" "path_exists w TEST_ARROW"
    using main_no_read [of w p] by auto
  from main_reads_after_checks [OF ex] obtain rest where
    "pre @ Open_read p # post =
       [Path_exists TRAIN_ARROW, Path_exists TEST_ARROW,
        Print_stdout (str_of ''Reading Arrow files...'')] @ rest"
    using eq by auto
  then have "Path_exists TRAIN_ARROW \<in> set pre \<and> Path_exists TEST_ARROW \<in> set pre"
    by (cases pre; cases "tl pre"; cases "tl (tl pre)") auto
  then show "Path_exists TRAIN_ARROW \<in> set pre" "Path_exists TEST_ARROW \<in> set pre"
    by simp_all
qed

theorem main_missing_input_witness:
  "\<not> path_exists world_no_train TRAIN_ARROW \<and>
   main world_no_train =
     ([Path_exists TRAIN_ARROW,
       Print_stderr (str_of ''ERROR: Arrow file not found: train.arrow'')], Exit 1) \<and>
   path_exists world_no_test TRAIN_ARROW \<and> \<not> path_exists world_no_test TEST_ARROW \<and>
   main world_no_test =
     ([Path_exists TRAIN_ARROW, Path_exists TEST_ARROW,
       Print_stderr (str_of ''ERROR: Arrow file not found: test.arrow'')], Exit 1) \<and>
   fst (main world_both) =
     [Path_exists TRAIN_ARROW, Path_exists TEST_ARROW,
      Print_stdout (str_of ''Reading Arrow files...'')] @
     Open_read TRAIN_ARROW # drop 4 (fst (main world_both)) \<and>
   Path_exists TRAIN_ARROW \<in> set [Path_exists TRAIN_ARROW, Path_exists TEST_ARROW,
      Print_stdout (str_of ''Reading Arrow files...'')] \<and>
   Path_exists TEST_ARROW \<in> set [Path_exists TRAIN_ARROW, Path_exists TEST_ARROW,
      Print_stdout (str_of ''Reading Arrow files...'')]"
proof -
  have a: "\<not> path_exists world_no_train TRAIN_ARROW"
    and ta: "path_text world_no_train TRAIN_ARROW = str_of ''train.arrow''"
    by (simp_all add: world_no_train_def world_no_test_def)
  have b: "path_exists world_no_test TRAIN_ARROW \<and> \<not> path_exists world_no_test TEST_ARROW"
    and tb: "path_text world_no_test TEST_ARROW = str_of ''test.arrow''"
    by (simp_all add: world_no_test_def)
  have c: "fst (main world_both) =
     [Path_exists TRAIN_ARROW, Path_exists TEST_ARROW,
      Print_stdout (str_of ''Reading Arrow files...'')] @
     Open_read TRAIN_ARROW # drop 4 (fst (main world_both))"
    by (simp add: main_world_both)
  have "main world_no_train =
     ([Path_exists TRAIN_ARROW,
       Print_stderr (str_of ''ERROR: Arrow file not found: train.arrow'')], Exit 1)"
    using main_missing_input [of world_no_train] a by (simp add: ta str_of_def)
  moreover have "main world_no_test =
     ([Path_exists TRAIN_ARROW, Path_exists TEST_ARROW,
       Print_stderr (str_of ''ERROR: Arrow file not found: test.arrow'')], Exit 1)"
    using main_missing_input [of world_no_test] b by (simp add: tb str_of_def)
  moreover have
    "Path_exists TRAIN_ARROW \<in> set [Path_exists TRAIN_ARROW, Path_exists TEST_ARROW,
        Print_stdout (str_of ''Reading Arrow files...'')] \<and>
     Path_exists TEST_ARROW \<in> set [Path_exists TRAIN_ARROW, Path_exists TEST_ARROW,
        Print_stdout (str_of ''Reading Arrow files...'')]"
    using main_missing_input [of world_both] c by blast
  ultimately show ?thesis using a b c by blast
qed

text \<open>
  C10. The output of \<open>clean\<close> is a selection of positions of the input, in order: every
  output record is a record of the input, with its content and score as they were, and
  the empty list is cleaned to the empty list.
\<close>

theorem clean_selects:
  "(\<exists>N. clean xs = Inr (nths xs N)) \<and>
   (\<exists>ys. clean xs = Inr ys \<and> set ys \<subseteq> set xs) \<and>
   clean [] = Inr []"
proof -
  obtain N where N: "filter long_enough (dedup_from {} xs) = nths xs N"
    using cleaned_subseq [of xs] unfolding subseq_conv_nths by blast
  have "set (nths xs N) \<subseteq> set xs" by (rule set_nths_subset)
  then show ?thesis using N by (auto simp: clean_eq)
qed

theorem clean_selects_witness:
  "clean sample_rows = Inr sample_cleaned \<and>
   sample_cleaned = nths sample_rows {0, 4} \<and>
   (\<exists>N. sample_cleaned = nths sample_rows N) \<and>
   set sample_cleaned \<subseteq> set sample_rows"
  using clean_selects [of sample_rows] by (simp add: clean_sample nths_sample)

end
